theory Spec2Isabelle
  imports Main
begin

section \<open>Conditions and their collaborators\<close>

text \<open>
  The condition of \<^verbatim>\<open>checks.go\<close>: the struct \<^verbatim>\<open>cond\<close> with its fields
  in declaration order. Go strings are byte sequences, here \<^typ>\<open>string\<close>.
\<close>

record cond =
  Hint :: string
  Type :: string
  Path :: string
  Cmd :: string
  User :: string
  Group :: string
  Name :: string
  Key :: string
  Value :: string
  After :: string
  regex :: bool

text \<open>
  Go's \<^verbatim>\<open>error\<close> values, as far as the code tells them apart:
  \<^verbatim>\<open>os.IsNotExist\<close> and \<^verbatim>\<open>os.IsPermission\<close> classify the errors of the operating
  system, \<^verbatim>\<open>errors.New\<close> builds the code's own. An \<^verbatim>\<open>error\<close> variable is an
  optional error, \<^term>\<open>None\<close> being \<^verbatim>\<open>nil\<close>.
\<close>

datatype error =
    ErrNotExist string
  | ErrPermission string
  | ErrOther string
  | ErrorsNew string

fun IsNotExist :: "error option \<Rightarrow> bool" where
  "IsNotExist (Some (ErrNotExist _)) = True"
| "IsNotExist _ = False"

fun IsPermission :: "error option \<Rightarrow> bool" where
  "IsPermission (Some (ErrPermission _)) = True"
| "IsPermission _ = False"

text \<open>
  The logging collaborators \<^verbatim>\<open>fail\<close>, \<^verbatim>\<open>warn\<close> and \<^verbatim>\<open>debug\<close> take any
  values; what they are given is recorded as an event.
\<close>

datatype arg = S string | B bool | E "error option" | C cond

datatype event = Fail "arg list" | Warn "arg list" | Debug "arg list"

text \<open>
  A call either returns, or ends the process (\<^verbatim>\<open>fail\<close>, when it terminates the
  run), or panics. The panics that can occur are those of package \<^verbatim>\<open>reflect\<close>
  (a \<^verbatim>\<open>*reflect.ValueError\<close> with the method and the kind it was called on),
  the call of a method on a nil \<^verbatim>\<open>os.FileInfo\<close>, and a failed type assertion.
\<close>

datatype kind = Invalid | StringKind

datatype panic = ValueError string kind | NilDereference | TypeAssertionError

datatype 'a outcome = Ret 'a | Exit | Panic panic

type_synonym 'a io = "event list \<times> 'a outcome"

definition bind_io :: "'a io \<Rightarrow> ('a \<Rightarrow> 'b io) \<Rightarrow> 'b io" where
  "bind_io m f =
     (case m of
        (l, Ret x) \<Rightarrow> (case f x of (l', r) \<Rightarrow> (l @ l', r))
      | (l, Exit) \<Rightarrow> (l, Exit)
      | (l, Panic p) \<Rightarrow> (l, Panic p))"

text \<open>
  Everything \<^verbatim>\<open>checks.go\<close> calls and does not define. \<^verbatim>\<open>shellCommandOutput\<close>
  and \<^verbatim>\<open>readFile\<close> return a string and an error; \<^verbatim>\<open>os.Stat\<close> is used for its
  error only; \<^verbatim>\<open>filepath.Walk\<close> visits a sequence of paths, each with its
  \<^verbatim>\<open>FileInfo\<close> (here: whether it is a directory) or with nil when the entry could
  not be examined; \<^verbatim>\<open>regexp.Match\<close> compiles the pattern, which may fail, and
  matches; \<^verbatim>\<open>sha256\<close> with \<^verbatim>\<open>hex.EncodeToString\<close> is a function of the content.
  \<^verbatim>\<open>deobfuscateCond\<close> and \<^verbatim>\<open>obfuscateCond\<close> rewrite the condition they are given
  a pointer to. Whether \<^verbatim>\<open>fail\<close> returns to its caller or ends the process is
  not visible in \<^verbatim>\<open>checks.go\<close>: \<open>failExits\<close> leaves both open.
  \<open>otherMethods\<close> are the exported check methods of \<^verbatim>\<open>cond\<close> that other files
  of the package declare, all of type \<^verbatim>\<open>func() (bool, error)\<close>.
\<close>

record world =
  shellCommandOutput :: "string \<Rightarrow> string \<times> error option"
  readFile :: "string \<Rightarrow> string \<times> error option"
  osStat :: "string \<Rightarrow> error option"
  walkVisits :: "string \<Rightarrow> (string \<times> bool option) list"
  regexpCompile :: "string \<Rightarrow> error + (string \<Rightarrow> bool)"
  sha256Hex :: "string \<Rightarrow> string"
  deobfuscateCond :: "cond \<Rightarrow> cond \<times> error option"
  obfuscateCond :: "cond \<Rightarrow> cond"
  failExits :: bool
  verboseEnabled :: bool
  otherMethods :: "string \<Rightarrow> (cond \<Rightarrow> (bool \<times> error option) io) option"

definition fail :: "world \<Rightarrow> arg list \<Rightarrow> unit io" where
  "fail w p = ([Fail p], if failExits w then Exit else Ret ())"

definition warn :: "arg list \<Rightarrow> unit io" where
  "warn p = ([Warn p], Ret ())"

definition debug :: "arg list \<Rightarrow> unit io" where
  "debug p = ([Debug p], Ret ())"

definition regexpMatch :: "world \<Rightarrow> string \<Rightarrow> string \<Rightarrow> bool \<times> error option" where
  "regexpMatch w pattern b =
     (case regexpCompile w pattern of
        Inl e \<Rightarrow> (False, Some e)
      | Inr re \<Rightarrow> (re b, None))"

section \<open>Strings\<close>

text \<open>\<^verbatim>\<open>strings.Contains(s, substr)\<close>: \<open>substr\<close> occurs in \<open>s\<close>.\<close>

fun hasPrefix :: "string \<Rightarrow> string \<Rightarrow> bool" where
  "hasPrefix s [] = True"
| "hasPrefix [] (p # ps) = False"
| "hasPrefix (c # cs) (p # ps) = (c = p \<and> hasPrefix cs ps)"

fun Contains :: "string \<Rightarrow> string \<Rightarrow> bool" where
  "Contains [] substr = (substr = [])"
| "Contains (c # cs) substr = (hasPrefix (c # cs) substr \<or> Contains cs substr)"

text \<open>
  \<^verbatim>\<open>strings.Split(s, "\n")\<close>: the pieces of \<open>s\<close> between the line feeds, one
  more than there are line feeds.
\<close>

fun Split :: "string \<Rightarrow> char \<Rightarrow> string list" where
  "Split [] sep = [[]]"
| "Split (c # cs) sep =
     (if c = sep then [] # Split cs sep
      else (case Split cs sep of
              [] \<Rightarrow> [[c]]
            | l # ls \<Rightarrow> (c # l) # ls))"

text \<open>
  \<^verbatim>\<open>strings.TrimSpace\<close> removes leading and trailing white space as Unicode
  defines it; on the UTF-8 bytes of a Go string these are the following
  sequences.
\<close>

definition spaces :: "string list" where
  "spaces =
     [[CHR 0x09], [CHR 0x0A], [CHR 0x0B], [CHR 0x0C], [CHR 0x0D], [CHR 0x20],
      [CHR 0xC2, CHR 0x85], [CHR 0xC2, CHR 0xA0],
      [CHR 0xE1, CHR 0x9A, CHR 0x80],
      [CHR 0xE2, CHR 0x80, CHR 0x80], [CHR 0xE2, CHR 0x80, CHR 0x81],
      [CHR 0xE2, CHR 0x80, CHR 0x82], [CHR 0xE2, CHR 0x80, CHR 0x83],
      [CHR 0xE2, CHR 0x80, CHR 0x84], [CHR 0xE2, CHR 0x80, CHR 0x85],
      [CHR 0xE2, CHR 0x80, CHR 0x86], [CHR 0xE2, CHR 0x80, CHR 0x87],
      [CHR 0xE2, CHR 0x80, CHR 0x88], [CHR 0xE2, CHR 0x80, CHR 0x89],
      [CHR 0xE2, CHR 0x80, CHR 0x8A], [CHR 0xE2, CHR 0x80, CHR 0xA8],
      [CHR 0xE2, CHR 0x80, CHR 0xA9], [CHR 0xE2, CHR 0x80, CHR 0xAF],
      [CHR 0xE2, CHR 0x81, CHR 0x9F], [CHR 0xE3, CHR 0x80, CHR 0x80]]"

definition spaceWidth :: "string list \<Rightarrow> string \<Rightarrow> nat" where
  "spaceWidth sps s = (case filter (hasPrefix s) sps of [] \<Rightarrow> 0 | sp # _ \<Rightarrow> length sp)"

function trimPrefixes :: "string list \<Rightarrow> string \<Rightarrow> string" where
  "trimPrefixes sps s =
     (if spaceWidth sps s = 0 \<or> s = [] then s
      else trimPrefixes sps (drop (spaceWidth sps s) s))"
  by pat_completeness auto
termination
  by (relation "measure (\<lambda>(sps, s). length s)") auto

definition TrimSpace :: "string \<Rightarrow> string" where
  "TrimSpace s = rev (trimPrefixes (map rev spaces) (rev (trimPrefixes spaces s)))"

section \<open>Argument validation\<close>

text \<open>
  \<^verbatim>\<open>reflect.ValueOf(c)\<close>: the fields of the struct in order, each with its name
  and with what \<^verbatim>\<open>v.Field(i).String()\<close> gives (for the boolean field, the
  placeholder of package \<^verbatim>\<open>reflect\<close>).
\<close>

definition fields :: "cond \<Rightarrow> (string \<times> string) list" where
  "fields c =
     [(''Hint'', Hint c), (''Type'', Type c), (''Path'', Path c), (''Cmd'', Cmd c),
      (''User'', User c), (''Group'', Group c), (''Name'', Name c), (''Key'', Key c),
      (''Value'', Value c), (''After'', After c), (''regex'', ''<bool Value>'')]"

definition quoted :: "string \<Rightarrow> string" where
  "quoted n = [CHR 0x27] @ n @ [CHR 0x27]"

fun requireArgsLoop :: "world \<Rightarrow> cond \<Rightarrow> string list \<Rightarrow> (string \<times> string) list \<Rightarrow> unit io" where
  "requireArgsLoop w c args [] = ([], Ret ())"
| "requireArgsLoop w c args ((name, str) # fs) =
     (if name = ''Type'' \<or> name = ''regex'' then requireArgsLoop w c args fs
      else if name = ''Hint'' then requireArgsLoop w c args fs
      else
        (let required = (name \<in> set args) in
         if required then
           (if str = '''' then
              bind_io (fail w [S (Type c @ '':''), S (''missing required argument '' @ quoted name)])
                (\<lambda>_. requireArgsLoop w c args fs)
            else requireArgsLoop w c args fs)
         else if str \<noteq> '''' then
           bind_io (warn [S (Type c @ '':''), S (''specifying unused argument '' @ quoted name)])
             (\<lambda>_. requireArgsLoop w c args fs)
         else requireArgsLoop w c args fs))"

definition requireArgs :: "world \<Rightarrow> cond \<Rightarrow> string list \<Rightarrow> unit io" where
  "requireArgs w c args =
     (if Type c = '''' then ([], Ret ())
      else requireArgsLoop w c args (fields c))"

text \<open>The method \<^verbatim>\<open>String\<close> of a condition: its non-empty fields, one a line.\<close>

definition String :: "cond \<Rightarrow> string" where
  "String c =
     concat (map (\<lambda>(name, str). if str = '''' then ''''
                    else [CHR 0x09] @ name @ '': '' @ str @ [CHR 0x0A]) (fields c))"

section \<open>The checks\<close>

definition CommandContains :: "world \<Rightarrow> cond \<Rightarrow> (bool \<times> error option) io" where
  "CommandContains w c =
     bind_io (requireArgs w c [''Cmd'', ''Value'']) (\<lambda>_.
       case shellCommandOutput w (Cmd c) of (out, err) \<Rightarrow>
         if err \<noteq> None then ([], Ret (False, err))
         else if regex c then
           (let outTrim = TrimSpace out in ([], Ret (regexpMatch w (Value c) outTrim)))
         else ([], Ret (Contains (TrimSpace out) (Value c), err)))"

definition CommandOutput :: "world \<Rightarrow> cond \<Rightarrow> (bool \<times> error option) io" where
  "CommandOutput w c =
     bind_io (requireArgs w c [''Cmd'', ''Value'']) (\<lambda>_.
       case shellCommandOutput w (Cmd c) of (out, err) \<Rightarrow>
         ([], Ret (TrimSpace out = Value c, err)))"

definition PathExists :: "world \<Rightarrow> cond \<Rightarrow> (bool \<times> error option) io" where
  "PathExists w c =
     bind_io (requireArgs w c [''Path'']) (\<lambda>_.
       let err = osStat w (Path c) in
       if err \<noteq> None \<and> IsNotExist err then ([], Ret (False, None))
       else if err \<noteq> None then ([], Ret (False, err))
       else ([], Ret (True, None)))"

text \<open>
  The loop of \<^verbatim>\<open>FileContains\<close> over the lines, with the variables \<open>found\<close>
  and \<open>err\<close> it assigns.
\<close>

fun FileContainsLines :: "world \<Rightarrow> cond \<Rightarrow> string list \<Rightarrow> bool \<Rightarrow> error option \<Rightarrow> bool \<times> error option" where
  "FileContainsLines w c [] found err = (found, err)"
| "FileContainsLines w c (line # ls) found err =
     (if regex c then
        (case regexpMatch w (Value c) line of (found', err') \<Rightarrow>
           if err' \<noteq> None then (False, err')
           else if found' then (found', err')
           else FileContainsLines w c ls found' err')
      else
        (let found' = Contains line (Value c) in
         if found' then (found', err)
         else FileContainsLines w c ls found' err))"

definition FileContains :: "world \<Rightarrow> cond \<Rightarrow> (bool \<times> error option) io" where
  "FileContains w c =
     bind_io (requireArgs w c [''Path'', ''Value'']) (\<lambda>_.
       case readFile w (Path c) of (fileContent, err) \<Rightarrow>
         if err \<noteq> None then ([], Ret (False, err))
         else
           (let found = False in
            ([], Ret (FileContainsLines w c (Split fileContent CHR 0x0A) found err))))"

definition FileEquals :: "world \<Rightarrow> cond \<Rightarrow> (bool \<times> error option) io" where
  "FileEquals w c =
     bind_io (requireArgs w c [''Path'', ''Value'']) (\<lambda>_.
       case readFile w (Path c) of (fileContent, err) \<Rightarrow>
         if err \<noteq> None then ([], Ret (False, err))
         else (let hash = sha256Hex w fileContent in ([], Ret (hash = Value c, None))))"

text \<open>
  \<^verbatim>\<open>filepath.Walk\<close> with the function literal of \<^verbatim>\<open>DirContains\<close>: the
  callback is run on each visit in turn, with the slice \<open>files\<close> it appends
  to, and the walk ends at the first error the callback returns.
\<close>

fun walkFiles :: "(string \<times> bool option) list \<Rightarrow> string list \<Rightarrow> (string list \<times> error option) outcome" where
  "walkFiles [] files = Ret (files, None)"
| "walkFiles ((path, info) # visits) files =
     (case info of
        None \<Rightarrow> Panic NilDereference
      | Some isDir \<Rightarrow>
          (let files' = (if \<not> isDir then files @ [path] else files) in
           if length files' > 10000 then
             Ret (files', Some (ErrorsNew ''attempted to index too many files in recursive search''))
           else walkFiles visits files'))"

text \<open>The loop of \<^verbatim>\<open>DirContains\<close> over the files found.\<close>

fun searchFiles :: "world \<Rightarrow> cond \<Rightarrow> string list \<Rightarrow> (bool \<times> error option) io" where
  "searchFiles w c [] = ([], Ret (False, None))"
| "searchFiles w c (file # fs) =
     bind_io (FileContains w (c\<lparr>Path := file\<rparr>)) (\<lambda>(result, err).
       if IsPermission err then ([], Ret (False, err))
       else if result then ([], Ret (result, None))
       else searchFiles w (c\<lparr>Path := file\<rparr>) fs)"

definition zeroCond :: cond where
  "zeroCond =
     \<lparr>Hint = '''', Type = '''', Path = '''', Cmd = '''', User = '''', Group = '''',
      Name = '''', Key = '''', Value = '''', After = '''', regex = False\<rparr>"

definition DirContains :: "world \<Rightarrow> cond \<Rightarrow> (bool \<times> error option) io" where
  "DirContains w c =
     bind_io (requireArgs w c [''Path'', ''Value'']) (\<lambda>_.
     bind_io (PathExists w (zeroCond\<lparr>Path := Path c\<rparr>)) (\<lambda>(result, err).
       if err \<noteq> None then ([], Ret (False, err))
       else if \<not> result then ([], Ret (False, Some (ErrorsNew ''path does not exist'')))
       else
         bind_io ([], walkFiles (walkVisits w (Path c)) []) (\<lambda>(files, err).
           if err \<noteq> None then ([], Ret (False, err))
           else searchFiles w c files)))"

section \<open>Running a condition\<close>

fun Error :: "error \<Rightarrow> string" where
  "Error (ErrNotExist m) = m"
| "Error (ErrPermission m) = m"
| "Error (ErrOther m) = m"
| "Error (ErrorsNew m) = m"

fun kindString :: "kind \<Rightarrow> string" where
  "kindString Invalid = ''invalid''"
| "kindString StringKind = ''string''"

definition ValueErrorMessage :: "string \<Rightarrow> kind \<Rightarrow> string" where
  "ValueErrorMessage m k =
     (if k = Invalid then ''reflect: call of '' @ m @ '' on zero Value''
      else ''reflect: call of '' @ m @ '' on '' @ kindString k @ '' Value'')"

text \<open>
  \<^verbatim>\<open>reflect.ValueOf(cond).MethodByName(condFunc).Call\<close> followed by
  \<^verbatim>\<open>vals[0].Bool()\<close>: the exported methods of \<^verbatim>\<open>cond\<close> are the checks,
  \<^verbatim>\<open>String\<close> (whose result is no boolean) and those of the other files; for
  any other name the method value is the zero \<^verbatim>\<open>Value\<close> and \<^verbatim>\<open>Call\<close> panics.
\<close>

definition callMethod :: "world \<Rightarrow> cond \<Rightarrow> string \<Rightarrow> (bool \<times> error option) io" where
  "callMethod w c condFunc =
     (if condFunc = ''CommandContains'' then CommandContains w c
      else if condFunc = ''CommandOutput'' then CommandOutput w c
      else if condFunc = ''DirContains'' then DirContains w c
      else if condFunc = ''FileContains'' then FileContains w c
      else if condFunc = ''FileEquals'' then FileEquals w c
      else if condFunc = ''PathExists'' then PathExists w c
      else if condFunc = ''String'' then ([], Panic (ValueError ''reflect.Value.Bool'' StringKind))
      else (case otherMethods w condFunc of
              Some m \<Rightarrow> m c
            | None \<Rightarrow> ([], Panic (ValueError ''reflect.Value.Call'' Invalid))))"

text \<open>
  The deferred \<^verbatim>\<open>handleReflectPanic\<close>, given how the function body ended:
  \<^verbatim>\<open>recover\<close> stops a panic, a \<^verbatim>\<open>*reflect.ValueError\<close> is reported through
  \<^verbatim>\<open>fail\<close> and \<^verbatim>\<open>runCheck\<close> then returns the zero value; for any other
  panic value the type assertion panics in turn. No deferred call runs once
  the process has ended.
\<close>

definition handleReflectPanic :: "world \<Rightarrow> string \<Rightarrow> bool outcome \<Rightarrow> bool io" where
  "handleReflectPanic w condFunc r =
     (case r of
        Panic (ValueError m k) \<Rightarrow>
          bind_io (fail w [S (''Check type does not exist: '' @ condFunc),
                           S (''('' @ ValueErrorMessage m k @ '')'')])
            (\<lambda>_. ([], Ret False))
      | Panic _ \<Rightarrow> ([], Panic TypeAssertionError)
      | Ret b \<Rightarrow> ([], Ret b)
      | Exit \<Rightarrow> ([], Exit))"

text \<open>Lines 125 to 133: the suffixes of the type, the check's name, the flags.\<close>

definition resolveModifiers :: "cond \<Rightarrow> cond \<times> string \<times> bool" where
  "resolveModifiers cond0 =
     (let not = ''Not''; rgx = ''Regex'';
          condFunc = Type cond0;
          negation = False;
          (negation, condFunc) =
            (if drop (length (Type cond0) - length not) (Type cond0) = not
             then (True, take (length (Type cond0) - length not) (Type cond0))
             else (negation, condFunc));
          (cond1, condFunc) =
            (if drop (length (Type cond0) - length rgx) (Type cond0) = rgx
             then (cond0\<lparr>regex := True\<rparr>, take (length (Type cond0) - length rgx) (Type cond0))
             else (cond0, condFunc))
      in (cond1, condFunc, negation))"

text \<open>Lines 139 to 154: the call and what is made of its two results.\<close>

definition callAndCombine :: "world \<Rightarrow> cond \<Rightarrow> string \<Rightarrow> bool \<Rightarrow> bool io" where
  "callAndCombine w c condFunc negation =
     bind_io (callMethod w c condFunc) (\<lambda>(result, err).
       if negation then
         bind_io (debug [S ''Result is'', B (\<not> result), S ''(was'', B result,
                         S ''before negation) and error is'', E err])
           (\<lambda>_. ([], Ret (err = None \<and> \<not> result)))
       else
         bind_io (debug [S ''Result is'', B result, S ''and error is'', E err]) (\<lambda>_.
         bind_io (if verboseEnabled w \<and> err \<noteq> None
                  then warn [S condFunc, S ''returned an error:'', E err]
                  else ([], Ret ())) (\<lambda>_.
           ([], Ret (err = None \<and> result)))))"

text \<open>
  The body of \<^verbatim>\<open>runCheck\<close> from line 112 on, with the deferred
  \<^verbatim>\<open>handleReflectPanic\<close>: the value of the variable \<open>cond\<close> at the end, and
  the result.
\<close>

definition runCheckBody :: "world \<Rightarrow> cond \<Rightarrow> cond \<times> bool io" where
  "runCheckBody w cond0 =
     (let rgx = ''Regex'';
          cond1 = cond0\<lparr>regex := False\<rparr> in
      if length (Type cond1) \<le> length rgx then
        (cond1,
         bind_io (debug [S (''Running condition:'' @ [CHR 0x0A]), C cond0]) (\<lambda>_.
         bind_io (fail w [S (''Condition type '' @ [CHR 0x22] @ Type cond1 @ [CHR 0x22] @
             '' is not long enough to be valid. Do you have a '' @ [CHR 0x22] @
             ''type = '' @ quoted ''CheckTypeHere'' @ [CHR 0x22] @
             '' for all check conditions?'')]) (\<lambda>_.
           ([], Ret False))))
      else
        (case resolveModifiers cond1 of (cond2, condFunc, negation) \<Rightarrow>
           (cond2,
            bind_io (debug [S (''Running condition:'' @ [CHR 0x0A]), C cond0]) (\<lambda>_.
              case callAndCombine w cond2 condFunc negation of (l, r) \<Rightarrow>
                bind_io (l, Ret ()) (\<lambda>_. handleReflectPanic w condFunc r)))))"

text \<open>
  \<^verbatim>\<open>runCheck\<close>, called with the variables of type \<^verbatim>\<open>cond\<close> that exist
  (\<open>vars\<close>, a variable's address being its index). The parameter is a new
  variable, which holds a copy of the argument; \<^verbatim>\<open>deobfuscateCond\<close> and the
  deferred \<^verbatim>\<open>obfuscateCond\<close> are given its address. The deferred call runs
  when the function returns or panics, and not when the process ends.
\<close>

definition runCheck :: "world \<Rightarrow> cond list \<Rightarrow> cond \<Rightarrow> cond list \<times> bool io" where
  "runCheck w vars c =
     (let a = length vars;
          vars1 = vars @ [c];
          (d, err) = deobfuscateCond w (vars1 ! a);
          vars2 = vars1[a := d];
          (l1, r1) = (case err of
                        Some e \<Rightarrow> fail w [S (Error e)]
                      | None \<Rightarrow> ([], Ret ()))
      in case r1 of
           Ret _ \<Rightarrow>
             (case runCheckBody w (vars2 ! a) of (cond', l2, r2) \<Rightarrow>
                (let vars3 = vars2[a := cond'] in
                 case r2 of
                   Exit \<Rightarrow> (vars3, l1 @ l2, Exit)
                 | _ \<Rightarrow> (vars3[a := obfuscateCond w (vars3 ! a)], l1 @ l2, r2)))
         | Exit \<Rightarrow> (vars2, l1, Exit)
         | Panic p \<Rightarrow> (vars2, l1, Panic p))"

section \<open>What validation reports and what a search finds\<close>

text \<open>
  The parameter slots of a condition: its fields other than \<open>Type\<close>,
  \<open>Hint\<close> and the flag \<open>regex\<close>. A slot is missing when it is required
  and empty, unused when it is not required and not empty; \<open>spec_report\<close>
  is what the specification has validation say about one slot.
\<close>

definition slots :: "cond \<Rightarrow> (string \<times> string) list" where
  "slots c =
     [(''Path'', Path c), (''Cmd'', Cmd c), (''User'', User c), (''Group'', Group c),
      (''Name'', Name c), (''Key'', Key c), (''Value'', Value c), (''After'', After c)]"

definition missing :: "string list \<Rightarrow> string \<times> string \<Rightarrow> bool" where
  "missing args slot = (fst slot \<in> set args \<and> snd slot = '''')"

definition unused :: "string list \<Rightarrow> string \<times> string \<Rightarrow> bool" where
  "unused args slot = (fst slot \<notin> set args \<and> snd slot \<noteq> '''')"

definition spec_report :: "cond \<Rightarrow> string list \<Rightarrow> string \<times> string \<Rightarrow> event list" where
  "spec_report c args slot =
     (if missing args slot then
        [Fail [S (Type c @ '':''), S (''missing required argument '' @ quoted (fst slot))]]
      else if unused args slot then
        [Warn [S (Type c @ '':''), S (''specifying unused argument '' @ quoted (fst slot))]]
      else [])"

text \<open>
  The slots validation gets to: all of them when \<^verbatim>\<open>fail\<close> returns, and those up
  to the first missing one when it ends the process.
\<close>

definition examined :: "world \<Rightarrow> string list \<Rightarrow> (string \<times> string) list \<Rightarrow> (string \<times> string) list" where
  "examined w args sl =
     (if failExits w
      then takeWhile (\<lambda>slot. \<not> missing args slot) sl @
           take 1 (dropWhile (\<lambda>slot. \<not> missing args slot) sl)
      else sl)"

text \<open>
  A file of the machine, for a condition's value and flag: whether one of its
  lines has the value (as a substring, or as a match of the pattern), and the
  error that reading it or compiling the pattern gives.
\<close>

definition lineMatches :: "world \<Rightarrow> cond \<Rightarrow> string \<Rightarrow> bool" where
  "lineMatches w c line =
     (if regex c then
        (case regexpCompile w (Value c) of Inl e \<Rightarrow> False | Inr re \<Rightarrow> re line)
      else Contains line (Value c))"

definition fileError :: "world \<Rightarrow> cond \<Rightarrow> string \<Rightarrow> error option" where
  "fileError w c path =
     (case snd (readFile w path) of
        Some e \<Rightarrow> Some e
      | None \<Rightarrow>
          (if regex c then
             (case regexpCompile w (Value c) of Inl e \<Rightarrow> Some e | Inr re \<Rightarrow> None)
           else None))"

definition fileMatches :: "world \<Rightarrow> cond \<Rightarrow> string \<Rightarrow> bool" where
  "fileMatches w c path =
     (fileError w c path = None \<and>
      list_ex (lineMatches w c) (Split (fst (readFile w path)) CHR 0x0A))"

text \<open>The files a walk appends: the paths visited that are no directories.\<close>

definition filesOf :: "(string \<times> bool option) list \<Rightarrow> string list" where
  "filesOf visits = map fst (filter (\<lambda>v. snd v = Some False) visits)"

text \<open>The fields that validation passes over.\<close>

definition special :: "string \<times> string \<Rightarrow> bool" where
  "special f = (fst f = ''Type'' \<or> fst f = ''regex'' \<or> fst f = ''Hint'')"

section \<open>Example machines\<close>

text \<open>
  A machine with five directories: \<^verbatim>\<open>/srv\<close>, whose first file cannot be read,
  \<^verbatim>\<open>/etc\<close>, whose last file cannot, \<^verbatim>\<open>/var\<close>, whose files give input/output
  errors, \<^verbatim>\<open>/opt\<close>, whose first file does, and \<^verbatim>\<open>/big\<close> with 10001 files; a
  few commands; a regular expression engine that knows two patterns. The
  obfuscation reverses the value slot.
\<close>

definition exampleWorld :: world where
  "exampleWorld =
     \<lparr>shellCommandOutput = (\<lambda>cmd.
        if cmd = ''version'' then ('' v1.2.3'' @ [CHR 0x0A], None)
        else if cmd = ''broken'' then (''partial '', Some (ErrOther ''exit status 1''))
        else ('''', Some (ErrOther ''exit status 127''))),
      readFile = (\<lambda>path.
        if path = ''/srv/log'' then
          (''boot ok'' @ [CHR 0x0A] @ ''ERROR: disk full'' @ [CHR 0x0A], None)
        else if path = ''/srv/motd'' then (''welcome'', None)
        else if path = ''/etc/hosts'' then (''127.0.0.1 localhost'', None)
        else if path = ''/opt/notes'' then (''remember the milk'', None)
        else if path \<in> {''/srv/key'', ''/etc/shadow''} then
          ('''', Some (ErrPermission ''permission denied''))
        else if path \<in> {''/var/a'', ''/var/b'', ''/opt/broken''} then
          ('''', Some (ErrOther ''input/output error''))
        else ('''', Some (ErrNotExist ''no such file or directory''))),
      osStat = (\<lambda>path.
        if path \<in> {''/srv'', ''/srv/key'', ''/srv/log'', ''/srv/motd'', ''/etc'', ''/etc/hosts'',
                    ''/etc/shadow'', ''/var'', ''/var/a'', ''/var/b'', ''/opt'', ''/opt/broken'',
                    ''/opt/notes'', ''/big''} then None
        else if path = ''/root/x'' then Some (ErrPermission ''permission denied'')
        else Some (ErrNotExist ''no such file or directory'')),
      walkVisits = (\<lambda>root.
        if root = ''/srv'' then
          [(''/srv'', Some True), (''/srv/key'', Some False), (''/srv/log'', Some False),
           (''/srv/motd'', Some False)]
        else if root = ''/etc'' then
          [(''/etc'', Some True), (''/etc/hosts'', Some False), (''/etc/shadow'', Some False)]
        else if root = ''/var'' then
          [(''/var'', Some True), (''/var/a'', Some False), (''/var/b'', Some False)]
        else if root = ''/opt'' then
          [(''/opt'', Some True), (''/opt/broken'', Some False), (''/opt/notes'', Some False)]
        else if root = ''/big'' then
          (''/big'', Some True) #
          map (\<lambda>n. (''/big/'' @ replicate n CHR ''x'', Some False)) [1..<10002]
        else [(root, None)]),
      regexpCompile = (\<lambda>pattern.
        if pattern = ''^ERROR'' then Inr (\<lambda>b. hasPrefix b ''ERROR'')
        else if pattern = ''['' then Inl (ErrOther ''missing closing ]'')
        else Inr (\<lambda>b. Contains b pattern)),
      sha256Hex = (\<lambda>content. ''00''),
      deobfuscateCond = (\<lambda>c. (c\<lparr>Value := rev (Value c)\<rparr>, None)),
      obfuscateCond = (\<lambda>c. c\<lparr>Value := rev (Value c)\<rparr>),
      failExits = False,
      verboseEnabled = True,
      otherMethods = (\<lambda>name. None)\<rparr>"

definition exampleCond :: "string \<Rightarrow> string \<Rightarrow> string \<Rightarrow> string \<Rightarrow> cond" where
  "exampleCond t p c v = zeroCond\<lparr>Type := t, Path := p, Cmd := c, Value := v\<rparr>"


section \<open>Sequencing\<close>

lemma bind_io_Ret: "bind_io (l, Ret x) f = (l @ fst (f x), snd (f x))"
  by (simp add: bind_io_def split: prod.splits)

lemma bind_io_Exit: "bind_io (l, Exit) f = (l, Exit)"
  by (simp add: bind_io_def)

lemma bind_io_Panic: "bind_io (l, Panic p) f = (l, Panic p)"
  by (simp add: bind_io_def)

lemma snd_bind_io:
  "snd (bind_io m f) = (case snd m of Ret x \<Rightarrow> snd (f x) | Exit \<Rightarrow> Exit | Panic p \<Rightarrow> Panic p)"
  by (cases m) (simp add: bind_io_def split: outcome.splits prod.splits)

lemma fst_bind_io:
  "fst (bind_io m f) = (case snd m of Ret x \<Rightarrow> fst m @ fst (f x) | _ \<Rightarrow> fst m)"
  by (cases m) (simp add: bind_io_def split: outcome.splits prod.splits)

section \<open>Argument validation: what is reported\<close>

lemma requireArgsLoop_skip:
  "requireArgsLoop w c args fs = requireArgsLoop w c args (filter (\<lambda>f. \<not> special f) fs)"
  by (induction w c args fs rule: requireArgsLoop.induct) (simp_all add: Let_def special_def)

lemma filter_fields: "filter (\<lambda>f. \<not> special f) (fields c) = slots c"
  by (simp add: fields_def slots_def special_def)

lemma requireArgsLoop_step:
  assumes "\<not> special f"
  shows "requireArgsLoop w c args (f # sl) =
           bind_io (spec_report c args f, if missing args f \<and> failExits w then Exit else Ret ())
             (\<lambda>_. requireArgsLoop w c args sl)"
  using assms
  by (cases f)
    (auto simp add: special_def Let_def spec_report_def missing_def unused_def fail_def
      warn_def bind_io_def split: prod.splits)

lemma examined_Cons:
  "examined w args (f # sl) =
     (if failExits w \<and> missing args f then [f] else f # examined w args sl)"
  by (simp add: examined_def)

lemma requireArgsLoop_slots:
  assumes "\<forall>f\<in>set sl. \<not> special f"
  shows "requireArgsLoop w c args sl =
           (concat (map (spec_report c args) (examined w args sl)),
            if failExits w \<and> list_ex (missing args) sl then Exit else Ret ())"
  using assms
proof (induction sl)
  case Nil
  then show ?case by (simp add: examined_def)
next
  case (Cons f sl)
  then have IH: "requireArgsLoop w c args sl =
           (concat (map (spec_report c args) (examined w args sl)),
            if failExits w \<and> list_ex (missing args) sl then Exit else Ret ())"
    and f: "\<not> special f"
    by simp_all
  show ?case
    by (simp add: requireArgsLoop_step [OF f] IH examined_Cons bind_io_def)
qed

lemma requireArgs_eq:
  "requireArgs w c args =
     (if Type c = '''' then ([], Ret ())
      else (concat (map (spec_report c args) (examined w args (slots c))),
            if failExits w \<and> list_ex (missing args) (slots c) then Exit else Ret ()))"
proof -
  have "\<forall>f\<in>set (slots c). \<not> special f"
    by (simp add: slots_def special_def)
  then have "requireArgsLoop w c args (fields c) =
      (concat (map (spec_report c args) (examined w args (slots c))),
            if failExits w \<and> list_ex (missing args) (slots c) then Exit else Ret ())"
    by (subst requireArgsLoop_skip) (simp only: filter_fields requireArgsLoop_slots)
  then show ?thesis
    by (simp add: requireArgs_def)
qed

text \<open>
  C8. Validation goes through the parameter slots, which are the fields other
  than \<open>Type\<close>, \<open>Hint\<close> and \<open>regex\<close>, in order. A required slot that is
  empty gives one \<^verbatim>\<open>fail\<close> with the condition's type and the slot's name, a
  non-empty slot that is not required gives one \<^verbatim>\<open>warn\<close> with both, any
  other slot gives nothing; a condition whose type is empty is not validated at
  all. Where \<^verbatim>\<open>fail\<close> ends the process, validation stops at the first missing
  slot; where it returns, every slot is reported and validation returns.
\<close>

theorem requireArgs_report:
  "(Type c = '''' \<longrightarrow> requireArgs w c args = ([], Ret ())) \<and>
   (Type c \<noteq> '''' \<longrightarrow>
      fst (requireArgs w c args) = concat (map (spec_report c args) (examined w args (slots c))) \<and>
      snd (requireArgs w c args) =
        (if failExits w \<and> list_ex (missing args) (slots c) then Exit else Ret ())) \<and>
   (\<not> failExits w \<longrightarrow> examined w args (slots c) = slots c)"
  by (simp add: requireArgs_eq examined_def)

theorem requireArgs_report_witness:
  "requireArgs exampleWorld (exampleCond ''PathExists'' ''/srv'' '''' ''x'') [''Path''] =
     ([Warn [S ''PathExists:'', S (''specifying unused argument '' @ quoted ''Value'')]], Ret ()) \<and>
   requireArgs exampleWorld (exampleCond ''PathExists'' '''' '''' '''') [''Path''] =
     ([Fail [S ''PathExists:'', S (''missing required argument '' @ quoted ''Path'')]], Ret ()) \<and>
   requireArgs exampleWorld (exampleCond '''' '''' '''' ''x'') [''Path''] = ([], Ret ())"
proof -
  have t: "Type (exampleCond ''PathExists'' ''/srv'' '''' ''x'') \<noteq> ''''"
    "Type (exampleCond ''PathExists'' '''' '''' '''') \<noteq> ''''"
    "Type (exampleCond '''' '''' '''' ''x'') = ''''"
    by (simp_all add: exampleCond_def)
  have x: "\<not> failExits exampleWorld"
    by (simp add: exampleWorld_def)
  show ?thesis
    using t x
      requireArgs_report [of "exampleCond ''PathExists'' ''/srv'' '''' ''x''" exampleWorld "[''Path'']"]
      requireArgs_report [of "exampleCond ''PathExists'' '''' '''' ''''" exampleWorld "[''Path'']"]
      requireArgs_report [of "exampleCond '''' '''' '''' ''x''" exampleWorld "[''Path'']"]
    by (simp add: prod_eq_iff exampleCond_def zeroCond_def slots_def spec_report_def
        missing_def unused_def)
qed

text \<open>When validation lets a check go on.\<close>

lemma snd_requireArgs:
  "snd (requireArgs w c args) = Ret () \<longleftrightarrow>
     Type c = '''' \<or> \<not> failExits w \<or> \<not> list_ex (missing args) (slots c)"
  by (simp add: requireArgs_eq)

lemma snd_requireArgs_Path:
  assumes "snd (requireArgs w c [''Path'', ''Value'']) = Ret ()" and "p \<noteq> ''''"
  shows "snd (requireArgs w (c\<lparr>Path := p\<rparr>) [''Path'', ''Value'']) = Ret ()"
  using assms by (auto simp add: snd_requireArgs slots_def missing_def)

section \<open>Strings and lines\<close>

lemma hasPrefix_iff: "hasPrefix s p \<longleftrightarrow> (\<exists>post. s = p @ post)"
  by (induction s p rule: hasPrefix.induct) auto

lemma Contains_iff: "Contains s sub \<longleftrightarrow> (\<exists>pre post. s = pre @ sub @ post)"
proof (induction s)
  case Nil
  then show ?case by auto
next
  case (Cons c cs)
  show ?case
  proof
    assume "Contains (c # cs) sub"
    then consider "hasPrefix (c # cs) sub" | "Contains cs sub" by auto
    then show "\<exists>pre post. c # cs = pre @ sub @ post"
    proof cases
      case 1
      then obtain post where "c # cs = sub @ post" by (auto simp: hasPrefix_iff)
      then have "c # cs = [] @ sub @ post" by simp
      then show ?thesis by blast
    next
      case 2
      then obtain pre post where "cs = pre @ sub @ post" using Cons by auto
      then have "c # cs = (c # pre) @ sub @ post" by simp
      then show ?thesis by blast
    qed
  next
    assume "\<exists>pre post. c # cs = pre @ sub @ post"
    then obtain pre post where e: "c # cs = pre @ sub @ post" by auto
    show "Contains (c # cs) sub"
    proof (cases pre)
      case Nil
      then have "hasPrefix (c # cs) sub" using e by (auto simp: hasPrefix_iff)
      then show ?thesis by simp
    next
      case (Cons a pre')
      then have "cs = pre' @ sub @ post" using e by simp
      then have "Contains cs sub" using Cons.IH by blast
      then show ?thesis by simp
    qed
  qed
qed

lemma Split_not_Nil: "Split s sep \<noteq> []"
  by (induction s sep rule: Split.induct) (auto split: list.splits)

text \<open>The lines of a string hold no line feed, and there is one more line than line feeds.\<close>

lemma Split_no_sep: "l \<in> set (Split s sep) \<Longrightarrow> sep \<notin> set l"
  by (induction s sep arbitrary: l rule: Split.induct) (auto split: if_splits list.splits)

lemma Split_length: "length (Split s sep) = Suc (count_list s sep)"
  by (induction s sep rule: Split.induct) (auto split: list.splits)

lemma FileContainsLines_plain:
  assumes "\<not> regex c"
  shows "FileContainsLines w c ls False err = (list_ex (\<lambda>l. Contains l (Value c)) ls, err)"
  using assms by (induction ls) (simp_all add: Let_def)

lemma FileContainsLines_regex:
  assumes "regex c" and "regexpCompile w (Value c) = Inr re"
  shows "FileContainsLines w c ls False None = (list_ex re ls, None)"
  using assms by (induction ls) (simp_all add: regexpMatch_def)

lemma FileContainsLines_malformed:
  assumes "regex c" and "regexpCompile w (Value c) = Inl e" and "ls \<noteq> []"
  shows "FileContainsLines w c ls found err = (False, Some e)"
  using assms by (cases ls) (simp_all add: regexpMatch_def)

lemma FileContainsLines_eq:
  assumes "ls \<noteq> []"
  shows "FileContainsLines w c ls False None =
    (if regex c then
       (case regexpCompile w (Value c) of
          Inl e \<Rightarrow> (False, Some e)
        | Inr re \<Rightarrow> (list_ex re ls, None))
     else (list_ex (\<lambda>l. Contains l (Value c)) ls, None))"
  using assms
  by (auto simp add: FileContainsLines_plain FileContainsLines_regex FileContainsLines_malformed
      split: sum.splits)

section \<open>Files and directories\<close>

lemma FileContains_files:
  assumes "snd (requireArgs w c [''Path'', ''Value'']) = Ret ()"
  shows "snd (FileContains w c) = Ret (fileMatches w c (Path c), fileError w c (Path c))"
proof (cases "readFile w (Path c)")
  case (Pair content err)
  show ?thesis
  proof (cases err)
    case (Some e)
    then show ?thesis
      using assms Pair
      by (simp add: FileContains_def snd_bind_io fileMatches_def fileError_def)
  next
    case None
    then show ?thesis
      using assms Pair
      by (auto simp add: FileContains_def snd_bind_io fileMatches_def fileError_def
          FileContainsLines_eq Split_not_Nil lineMatches_def list_ex_iff split: sum.splits)
  qed
qed

lemma lineMatches_Path [simp]: "lineMatches w (c\<lparr>Path := p\<rparr>) = lineMatches w c"
  by (simp add: lineMatches_def fun_eq_iff split: sum.splits)

lemma fileError_Path [simp]: "fileError w (c\<lparr>Path := p\<rparr>) q = fileError w c q"
  by (simp add: fileError_def split: option.splits sum.splits)

lemma fileMatches_Path [simp]: "fileMatches w (c\<lparr>Path := p\<rparr>) q = fileMatches w c q"
  by (simp add: fileMatches_def)

lemma fileMatches_no_error: "fileMatches w c f \<Longrightarrow> fileError w c f = None"
  by (simp add: fileMatches_def)

lemma searchFiles_Cons:
  assumes "snd (requireArgs w (c\<lparr>Path := f\<rparr>) [''Path'', ''Value'']) = Ret ()"
  shows "snd (searchFiles w c (f # fs)) =
    (if IsPermission (fileError w c f) then Ret (False, fileError w c f)
     else if fileMatches w c f then Ret (True, None)
     else snd (searchFiles w (c\<lparr>Path := f\<rparr>) fs))"
  using FileContains_files [OF assms]
  by (simp add: snd_bind_io)

lemma searchFiles_none:
  assumes "\<forall>g\<in>set fs. snd (requireArgs w (c\<lparr>Path := g\<rparr>) [''Path'', ''Value'']) = Ret ()"
      and "\<forall>g\<in>set fs. \<not> fileMatches w c g \<and> \<not> IsPermission (fileError w c g)"
  shows "snd (searchFiles w c fs) = Ret (False, None)"
  using assms
proof (induction fs arbitrary: c)
  case Nil
  then show ?case by simp
next
  case (Cons f fs)
  have "snd (searchFiles w (c\<lparr>Path := f\<rparr>) fs) = Ret (False, None)"
    using Cons.prems by (intro Cons.IH) simp_all
  then show ?case
    using Cons.prems by (simp del: searchFiles.simps add: searchFiles_Cons)
qed

lemma searchFiles_first:
  assumes "\<forall>g\<in>set (pre @ [f]). snd (requireArgs w (c\<lparr>Path := g\<rparr>) [''Path'', ''Value'']) = Ret ()"
      and "\<forall>g\<in>set pre. \<not> fileMatches w c g \<and> \<not> IsPermission (fileError w c g)"
  shows "snd (searchFiles w c (pre @ f # post)) =
    (if IsPermission (fileError w c f) then Ret (False, fileError w c f)
     else if fileMatches w c f then Ret (True, None)
     else snd (searchFiles w (c\<lparr>Path := f\<rparr>) post))"
  using assms
proof (induction pre arbitrary: c)
  case Nil
  then show ?case by (simp del: searchFiles.simps add: searchFiles_Cons)
next
  case (Cons p pre)
  have "snd (searchFiles w (c\<lparr>Path := p\<rparr>) (pre @ f # post)) =
    (if IsPermission (fileError w (c\<lparr>Path := p\<rparr>) f) then Ret (False, fileError w (c\<lparr>Path := p\<rparr>) f)
     else if fileMatches w (c\<lparr>Path := p\<rparr>) f then Ret (True, None)
     else snd (searchFiles w (c\<lparr>Path := p, Path := f\<rparr>) post))"
    using Cons.prems by (intro Cons.IH) simp_all
  then show ?case
    using Cons.prems by (simp del: searchFiles.simps add: searchFiles_Cons)
qed

lemma walkFiles_within:
  assumes "\<forall>v\<in>set vs. snd v \<noteq> None"
      and "length files + length (filesOf vs) \<le> 10000"
  shows "walkFiles vs files = Ret (files @ filesOf vs, None)"
  using assms
proof (induction vs arbitrary: files)
  case Nil
  then show ?case by (simp add: filesOf_def)
next
  case (Cons v vs)
  obtain path info where v: "v = (path, info)" by (cases v)
  with Cons.prems obtain isDir where i: "info = Some isDir" by auto
  show ?case
  proof (cases isDir)
    case True
    then show ?thesis
      using Cons.prems Cons.IH [of files] by (simp add: v i filesOf_def)
  next
    case False
    then show ?thesis
      using Cons.prems Cons.IH [of "files @ [path]"] by (simp add: v i filesOf_def)
  qed
qed

lemma walkFiles_too_many:
  assumes "\<forall>v\<in>set vs. snd v \<noteq> None"
      and "length files \<le> 10000"
      and "length files + length (filesOf vs) > 10000"
  shows "\<exists>fs. walkFiles (vs @ rest) files =
            Ret (fs, Some (ErrorsNew ''attempted to index too many files in recursive search''))"
  using assms
proof (induction vs arbitrary: files)
  case Nil
  then show ?case by (simp add: filesOf_def)
next
  case (Cons v vs)
  obtain path info where v: "v = (path, info)" by (cases v)
  with Cons.prems obtain isDir where i: "info = Some isDir" by auto
  show ?case
  proof (cases isDir)
    case True
    then show ?thesis
      using Cons.prems Cons.IH [of files] by (simp add: v i filesOf_def)
  next
    case False
    show ?thesis
    proof (cases "length files < 10000")
      case True
      then show ?thesis
        using \<open>\<not> isDir\<close> Cons.prems Cons.IH [of "files @ [path]"]
        by (simp add: v i filesOf_def)
    next
      case False
      then show ?thesis
        using \<open>\<not> isDir\<close> by (simp add: v i)
    qed
  qed
qed


text \<open>A visit without \<^verbatim>\<open>FileInfo\<close> makes the callback panic.\<close>

lemma walkFiles_nil:
  assumes "\<forall>v\<in>set vs. snd v \<noteq> None"
      and "length files + length (filesOf vs) \<le> 10000"
  shows "walkFiles (vs @ (p, None) # rest) files = Panic NilDereference"
  using assms
proof (induction vs arbitrary: files)
  case Nil
  then show ?case by simp
next
  case (Cons v vs)
  obtain path info where v: "v = (path, info)" by (cases v)
  with Cons.prems obtain isDir where i: "info = Some isDir" by auto
  show ?case
    using Cons.prems Cons.IH [of "if isDir then files else files @ [path]"]
    by (cases isDir) (simp_all add: v i filesOf_def)
qed

lemma PathExists_zeroCond:
  "PathExists w (zeroCond\<lparr>Path := p\<rparr>) =
     ([], Ret (case osStat w p of
                 None \<Rightarrow> (True, None)
               | Some e \<Rightarrow> if IsNotExist (Some e) then (False, None) else (False, Some e)))"
  by (simp add: PathExists_def requireArgs_def zeroCond_def bind_io_def Let_def
      split: option.splits)

lemma DirContains_absent:
  assumes "snd (requireArgs w c [''Path'', ''Value'']) = Ret ()"
      and "IsNotExist (osStat w (Path c))"
  shows "snd (DirContains w c) = Ret (False, Some (ErrorsNew ''path does not exist''))"
  using assms
  by (auto simp add: DirContains_def snd_bind_io PathExists_zeroCond split: option.splits)

lemma DirContains_too_many:
  assumes "snd (requireArgs w c [''Path'', ''Value'']) = Ret ()"
      and "osStat w (Path c) = None"
      and "walkVisits w (Path c) = vs @ rest"
      and "\<forall>v\<in>set vs. snd v \<noteq> None"
      and "length (filesOf vs) > 10000"
  shows "snd (DirContains w c) =
           Ret (False, Some (ErrorsNew ''attempted to index too many files in recursive search''))"
proof -
  obtain fs where "walkFiles (walkVisits w (Path c)) [] =
      Ret (fs, Some (ErrorsNew ''attempted to index too many files in recursive search''))"
    using walkFiles_too_many [OF assms(4), of "[]" rest] assms(3,5) by auto
  then show ?thesis
    using assms(1,2)
    by (simp add: DirContains_def snd_bind_io PathExists_zeroCond)
qed

lemma DirContains_search:
  assumes "snd (requireArgs w c [''Path'', ''Value'']) = Ret ()"
      and "osStat w (Path c) = None"
      and "\<forall>v\<in>set (walkVisits w (Path c)). snd v \<noteq> None"
      and "length (filesOf (walkVisits w (Path c))) \<le> 10000"
  shows "snd (DirContains w c) = snd (searchFiles w c (filesOf (walkVisits w (Path c))))"
proof -
  have "walkFiles (walkVisits w (Path c)) [] = Ret (filesOf (walkVisits w (Path c)), None)"
    using walkFiles_within [OF assms(3), of "[]"] assms(4) by simp
  then show ?thesis
    using assms(1,2)
    by (simp add: DirContains_def snd_bind_io PathExists_zeroCond)
qed

section \<open>Running a condition: modifiers, result, frame\<close>

text \<open>A single suffix is stripped, and sets its flag.\<close>

lemma drop_suffix_last:
  assumes "drop n xs = ys" and "ys \<noteq> []"
  shows "last xs = last ys"
  using assms by (metis drop_eq_Nil last_drop not_le)

lemma resolveModifiers_Not:
  assumes "Type c = base @ ''Not''"
  shows "resolveModifiers c = (c, base, True)"
proof -
  have "drop (length (Type c) - 5) (Type c) \<noteq> ''Regex''"
  proof
    assume "drop (length (Type c) - 5) (Type c) = ''Regex''"
    then have "last (Type c) = last ''Regex''"
      by (rule drop_suffix_last) simp
    then show False
      using assms by simp
  qed
  then show ?thesis
    using assms by (simp add: resolveModifiers_def)
qed

lemma resolveModifiers_Regex:
  assumes "Type c = base @ ''Regex''"
  shows "resolveModifiers c = (c\<lparr>regex := True\<rparr>, base, False)"
proof -
  have "drop (length (Type c) - 3) (Type c) \<noteq> ''Not''"
  proof
    assume "drop (length (Type c) - 3) (Type c) = ''Not''"
    then have "last (Type c) = last ''Not''"
      by (rule drop_suffix_last) simp
    then show False
      using assms by simp
  qed
  then show ?thesis
    using assms by (simp add: resolveModifiers_def)
qed

text \<open>What \<^verbatim>\<open>runCheck\<close> returns is what its body does with the check called.\<close>

lemma snd_runCheckBody:
  assumes "length (Type d) > 5"
      and "resolveModifiers (d\<lparr>regex := False\<rparr>) = (c', condFunc, negation)"
  shows "snd (snd (runCheckBody w d)) =
           snd (handleReflectPanic w condFunc (snd (callAndCombine w c' condFunc negation)))"
proof (cases "callAndCombine w c' condFunc negation")
  case (Pair l r)
  then show ?thesis
    using assms by (simp add: runCheckBody_def snd_bind_io debug_def)
qed

lemma snd_runCheck:
  assumes "deobfuscateCond w c = (d, derr)"
      and "derr \<noteq> None \<longrightarrow> \<not> failExits w"
  shows "snd (snd (runCheck w vars c)) = snd (snd (runCheckBody w d))"
  using assms
  by (cases derr)
    (auto simp add: runCheck_def Let_def fail_def split: prod.splits outcome.splits)

text \<open>
  Against C1 as stated. A type that ends in \<^verbatim>\<open>NotRegex\<close> is not resolved to its base check and both
  flags: the name left is \<^verbatim>\<open>FileContainsNot\<close>, negation is off, and the run
  ends with the report that no such check exists.
\<close>

theorem resolveModifiers_NotRegex_counterexample:
  "resolveModifiers (exampleCond ''FileContainsNotRegex'' ''/srv/log'' '''' ''ERROR'') \<noteq>
     ((exampleCond ''FileContainsNotRegex'' ''/srv/log'' '''' ''ERROR'')\<lparr>regex := True\<rparr>,
      ''FileContains'', True) \<and>
   snd (runCheck exampleWorld [] (exampleCond ''FileContainsNotRegex'' ''/srv/log'' '''' ''RORRE'')) =
    ([Debug [S (''Running condition:'' @ [CHR 0x0A]),
             C (exampleCond ''FileContainsNotRegex'' ''/srv/log'' '''' ''ERROR'')],
      Fail [S ''Check type does not exist: FileContainsNot'',
            S ''(reflect: call of reflect.Value.Call on zero Value)'']], Ret False)"
proof -
  have "resolveModifiers (exampleCond ''FileContainsNotRegex'' ''/srv/log'' '''' ''ERROR'') \<noteq>
     ((exampleCond ''FileContainsNotRegex'' ''/srv/log'' '''' ''ERROR'')\<lparr>regex := True\<rparr>,
      ''FileContains'', True)"
    by (simp add: resolveModifiers_def exampleCond_def zeroCond_def)
  moreover
  have "snd (runCheck exampleWorld [] (exampleCond ''FileContainsNotRegex'' ''/srv/log'' '''' ''RORRE'')) =
    ([Debug [S (''Running condition:'' @ [CHR 0x0A]),
             C (exampleCond ''FileContainsNotRegex'' ''/srv/log'' '''' ''ERROR'')],
      Fail [S ''Check type does not exist: FileContainsNot'',
            S ''(reflect: call of reflect.Value.Call on zero Value)'']], Ret False)"
    by code_simp
  ultimately show ?thesis by blast
qed

text \<open>
  C1, amended. The suffix \<^verbatim>\<open>Not\<close> is tested first and the suffix
  \<^verbatim>\<open>Regex\<close> second. The type \<^verbatim>\<open>FileContainsNotRegex\<close> ends in
  \<^verbatim>\<open>Regex\<close> and not in \<^verbatim>\<open>Not\<close>, so every condition of that type is
  resolved to the name \<^verbatim>\<open>FileContainsNot\<close>, without negation and with the
  flag \<open>regex\<close> set: that is the method the evaluation calls, and the
  condition it calls it on.
\<close>

theorem resolveModifiers_NotRegex:
  assumes "Type c = ''FileContainsNotRegex''"
  shows "resolveModifiers c = (c\<lparr>regex := True\<rparr>, ''FileContainsNot'', False) \<and>
         snd (snd (runCheckBody w c)) =
           snd (handleReflectPanic w ''FileContainsNot''
                 (snd (callAndCombine w (c\<lparr>regex := True\<rparr>) ''FileContainsNot'' False)))"
proof -
  have l: "length (Type c) > 5"
    using assms by simp
  have r: "resolveModifiers (c\<lparr>regex := False\<rparr>) = (c\<lparr>regex := True\<rparr>, ''FileContainsNot'', False)"
    using assms by (simp add: resolveModifiers_def)
  have "resolveModifiers c = (c\<lparr>regex := True\<rparr>, ''FileContainsNot'', False)"
    using assms by (simp add: resolveModifiers_def)
  then show ?thesis
    using snd_runCheckBody [OF l r] by simp
qed

theorem resolveModifiers_NotRegex_witness:
  "Type (exampleCond ''FileContainsNotRegex'' ''/srv/log'' '''' ''ERROR'') = ''FileContainsNotRegex'' \<and>
   resolveModifiers (exampleCond ''FileContainsNotRegex'' ''/srv/log'' '''' ''ERROR'') =
     (zeroCond\<lparr>Type := ''FileContainsNotRegex'', Path := ''/srv/log'', Value := ''ERROR'',
        regex := True\<rparr>, ''FileContainsNot'', False) \<and>
   snd (snd (runCheckBody exampleWorld
               (exampleCond ''FileContainsNotRegex'' ''/srv/log'' '''' ''ERROR''))) = Ret False"
proof -
  let ?c = "exampleCond ''FileContainsNotRegex'' ''/srv/log'' '''' ''ERROR''"
  have t: "Type ?c = ''FileContainsNotRegex''"
    by (simp add: exampleCond_def)
  have h: "snd (handleReflectPanic exampleWorld ''FileContainsNot''
                 (snd (callAndCombine exampleWorld (?c\<lparr>regex := True\<rparr>) ''FileContainsNot'' False))) =
           Ret False"
    by code_simp
  show ?thesis
    using t resolveModifiers_NotRegex [OF t, of exampleWorld] h
    by (simp add: exampleCond_def zeroCond_def)
qed

text \<open>
  C2. When the check that a condition names returns a result and an error,
  \<^verbatim>\<open>runCheck\<close> returns: for a negated condition, true exactly when there is no
  error and the result is false; otherwise, true exactly when there is no error
  and the result is true. With an error it returns false either way.
\<close>

theorem runCheck_combine:
  assumes "deobfuscateCond w c = (d, derr)"
      and "derr \<noteq> None \<longrightarrow> \<not> failExits w"
      and "length (Type d) > 5"
      and "resolveModifiers (d\<lparr>regex := False\<rparr>) = (c', condFunc, negation)"
      and "snd (callMethod w c' condFunc) = Ret (result, err)"
  shows "snd (snd (runCheck w vars c)) =
           Ret (if negation then err = None \<and> \<not> result else err = None \<and> result)"
proof -
  have cc: "snd (callAndCombine w c' condFunc negation) =
              Ret (if negation then err = None \<and> \<not> result else err = None \<and> result)"
    using assms(5) by (simp add: callAndCombine_def snd_bind_io debug_def warn_def)
  show ?thesis
    by (simp only: snd_runCheck [OF assms(1,2)] snd_runCheckBody [OF assms(3,4)] cc)
      (simp add: handleReflectPanic_def)
qed

theorem runCheck_combine_witness:
  "snd (callMethod exampleWorld (exampleCond ''CommandOutputNot'' '''' ''broken'' ''partial'')
          ''CommandOutput'') = Ret (True, Some (ErrOther ''exit status 1'')) \<and>
   snd (snd (runCheck exampleWorld []
               (exampleCond ''CommandOutputNot'' '''' ''broken'' ''laitrap''))) = Ret False \<and>
   snd (snd (runCheck exampleWorld []
               (exampleCond ''CommandOutput'' '''' ''broken'' ''laitrap''))) = Ret False"
proof -
  have d: "deobfuscateCond exampleWorld (exampleCond ''CommandOutputNot'' '''' ''broken'' ''laitrap'') =
             (exampleCond ''CommandOutputNot'' '''' ''broken'' ''partial'', None)"
    "deobfuscateCond exampleWorld (exampleCond ''CommandOutput'' '''' ''broken'' ''laitrap'') =
             (exampleCond ''CommandOutput'' '''' ''broken'' ''partial'', None)"
    by (simp_all add: exampleWorld_def exampleCond_def zeroCond_def)
  have n: "(None :: error option) \<noteq> None \<longrightarrow> \<not> failExits exampleWorld"
    by simp
  have l: "length (Type (exampleCond ''CommandOutputNot'' '''' ''broken'' ''partial'')) > 5"
    "length (Type (exampleCond ''CommandOutput'' '''' ''broken'' ''partial'')) > 5"
    by (simp_all add: exampleCond_def)
  have r: "resolveModifiers ((exampleCond ''CommandOutputNot'' '''' ''broken'' ''partial'')\<lparr>regex := False\<rparr>) =
             (exampleCond ''CommandOutputNot'' '''' ''broken'' ''partial'', ''CommandOutput'', True)"
    "resolveModifiers ((exampleCond ''CommandOutput'' '''' ''broken'' ''partial'')\<lparr>regex := False\<rparr>) =
             (exampleCond ''CommandOutput'' '''' ''broken'' ''partial'', ''CommandOutput'', False)"
    by (simp_all add: resolveModifiers_def exampleCond_def zeroCond_def)
  have m: "snd (callMethod exampleWorld (exampleCond ''CommandOutputNot'' '''' ''broken'' ''partial'')
             ''CommandOutput'') = Ret (True, Some (ErrOther ''exit status 1''))"
    "snd (callMethod exampleWorld (exampleCond ''CommandOutput'' '''' ''broken'' ''partial'')
             ''CommandOutput'') = Ret (True, Some (ErrOther ''exit status 1''))"
    by code_simp+
  show ?thesis
    using m(1) runCheck_combine [OF d(1) n l(1) r(1) m(1), of "[]"]
      runCheck_combine [OF d(2) n l(2) r(2) m(2), of "[]"]
    by simp
qed




section \<open>The checks: what they return\<close>

text \<open>
  C3. \<^verbatim>\<open>CommandOutput\<close> always compares the command's output, with the white
  space around it trimmed, to the value slot, and returns the comparison together
  with the error of running the command: the comparison is made whether or not
  the command failed.
\<close>

theorem CommandOutput_result:
  assumes "snd (requireArgs w c [''Cmd'', ''Value'']) = Ret ()"
  shows "snd (CommandOutput w c) =
    Ret (TrimSpace (fst (shellCommandOutput w (Cmd c))) = Value c,
         snd (shellCommandOutput w (Cmd c)))"
  using assms by (simp add: CommandOutput_def snd_bind_io split: prod.splits)

theorem CommandOutput_result_witness:
  "snd (requireArgs exampleWorld (exampleCond ''CommandOutput'' '''' ''broken'' ''partial'')
         [''Cmd'', ''Value'']) = Ret () \<and>
   snd (CommandOutput exampleWorld (exampleCond ''CommandOutput'' '''' ''broken'' ''partial'')) =
     Ret (True, Some (ErrOther ''exit status 1''))"
proof -
  have v: "snd (requireArgs exampleWorld (exampleCond ''CommandOutput'' '''' ''broken'' ''partial'')
         [''Cmd'', ''Value'']) = Ret ()"
    by code_simp
  have t: "TrimSpace ''partial '' = ''partial''"
    by code_simp
  show ?thesis
    using v CommandOutput_result [OF v] t
    by (simp add: exampleWorld_def exampleCond_def zeroCond_def)
qed

text \<open>
  C5. \<^verbatim>\<open>PathExists\<close> returns true and no error for a path that \<^verbatim>\<open>os.Stat\<close>
  finds, false and no error for a path it reports as not existing, and false
  with the error for any other error of \<^verbatim>\<open>os.Stat\<close>.
\<close>

theorem PathExists_result:
  assumes "snd (requireArgs w c [''Path'']) = Ret ()"
  shows "snd (PathExists w c) =
    Ret (case osStat w (Path c) of
           None \<Rightarrow> (True, None)
         | Some e \<Rightarrow> if IsNotExist (Some e) then (False, None) else (False, Some e))"
  using assms by (simp add: PathExists_def snd_bind_io Let_def split: option.splits)

theorem PathExists_result_witness:
  "snd (PathExists exampleWorld (exampleCond ''PathExists'' ''/nowhere'' '''' '''')) =
     Ret (False, None) \<and>
   snd (PathExists exampleWorld (exampleCond ''PathExists'' ''/srv/log'' '''' '''')) =
     Ret (True, None) \<and>
   snd (PathExists exampleWorld (exampleCond ''PathExists'' ''/root/x'' '''' '''')) =
     Ret (False, Some (ErrPermission ''permission denied''))"
proof -
  have v: "snd (requireArgs exampleWorld (exampleCond ''PathExists'' ''/nowhere'' '''' '''') [''Path'']) = Ret ()"
    "snd (requireArgs exampleWorld (exampleCond ''PathExists'' ''/srv/log'' '''' '''') [''Path'']) = Ret ()"
    "snd (requireArgs exampleWorld (exampleCond ''PathExists'' ''/root/x'' '''' '''') [''Path'']) = Ret ()"
    by code_simp+
  show ?thesis
    using PathExists_result [OF v(1)] PathExists_result [OF v(2)] PathExists_result [OF v(3)]
    by (simp add: exampleWorld_def exampleCond_def zeroCond_def)
qed

text \<open>
  C6. \<^verbatim>\<open>CommandContains\<close> returns false and the error when running the command
  fails, without comparing anything. Otherwise it trims the output and returns
  whether the value occurs in it as a substring or, when the flag \<open>regex\<close> is
  set, whether the value matches it as a regular expression.
\<close>

theorem CommandContains_result:
  assumes "snd (requireArgs w c [''Cmd'', ''Value'']) = Ret ()"
  shows "snd (CommandContains w c) =
    Ret (case shellCommandOutput w (Cmd c) of
           (out, Some e) \<Rightarrow> (False, Some e)
         | (out, None) \<Rightarrow>
             if regex c then
               (case regexpCompile w (Value c) of
                  Inl e \<Rightarrow> (False, Some e)
                | Inr re \<Rightarrow> (re (TrimSpace out), None))
             else (\<exists>pre post. TrimSpace out = pre @ Value c @ post, None))"
  using assms
  by (auto simp add: CommandContains_def snd_bind_io regexpMatch_def Contains_iff
      split: prod.splits option.splits sum.splits)

theorem CommandContains_result_witness:
  "snd (CommandContains exampleWorld (exampleCond ''CommandContains'' '''' ''version'' ''1.2'')) =
     Ret (True, None) \<and>
   snd (CommandContains exampleWorld (exampleCond ''CommandContains'' '''' ''broken'' ''partial'')) =
     Ret (False, Some (ErrOther ''exit status 1''))"
proof -
  have v: "snd (requireArgs exampleWorld (exampleCond ''CommandContains'' '''' ''version'' ''1.2'')
             [''Cmd'', ''Value'']) = Ret ()"
    "snd (requireArgs exampleWorld (exampleCond ''CommandContains'' '''' ''broken'' ''partial'')
             [''Cmd'', ''Value'']) = Ret ()"
    by code_simp+
  have t: "TrimSpace ('' v1.2.3'' @ [CHR 0x0A]) = ''v'' @ ''1.2'' @ ''.3''"
    by code_simp
  have "\<exists>pre post. TrimSpace ('' v1.2.3'' @ [CHR 0x0A]) = pre @ ''1.2'' @ post"
    unfolding t by blast
  then show ?thesis
    using CommandContains_result [OF v(1)] CommandContains_result [OF v(2)]
    by (simp add: exampleWorld_def exampleCond_def zeroCond_def)
qed

text \<open>
  C7. \<^verbatim>\<open>FileContains\<close> reads the file and splits it at the line feeds. It
  returns true when some line has the value as a substring or, with the flag
  \<open>regex\<close> set, is matched by the value as a regular expression; a failed read
  and a pattern that does not compile are returned as the error, with false.
\<close>

theorem FileContains_result:
  assumes "snd (requireArgs w c [''Path'', ''Value'']) = Ret ()"
  shows "snd (FileContains w c) =
    Ret (case readFile w (Path c) of
           (content, Some e) \<Rightarrow> (False, Some e)
         | (content, None) \<Rightarrow>
             if regex c then
               (case regexpCompile w (Value c) of
                  Inl e \<Rightarrow> (False, Some e)
                | Inr re \<Rightarrow> (\<exists>line\<in>set (Split content CHR 0x0A). re line, None))
             else (\<exists>line\<in>set (Split content CHR 0x0A).
                     \<exists>pre post. line = pre @ Value c @ post, None))"
  using assms
  by (auto simp add: FileContains_def snd_bind_io FileContainsLines_eq Split_not_Nil
      list_ex_iff Contains_iff split: prod.splits option.splits sum.splits)

theorem FileContains_result_witness:
  "snd (FileContains exampleWorld
          ((exampleCond ''FileContainsRegex'' ''/srv/log'' '''' ''^ERROR'')\<lparr>regex := True\<rparr>)) =
     Ret (True, None) \<and>
   snd (FileContains exampleWorld
          ((exampleCond ''FileContainsRegex'' ''/srv/log'' '''' ''['')\<lparr>regex := True\<rparr>)) =
     Ret (False, Some (ErrOther ''missing closing ]'')) \<and>
   snd (FileContains exampleWorld (exampleCond ''FileContains'' ''/srv/key'' '''' ''x'')) =
     Ret (False, Some (ErrPermission ''permission denied''))"
proof -
  have v: "snd (requireArgs exampleWorld
          ((exampleCond ''FileContainsRegex'' ''/srv/log'' '''' ''^ERROR'')\<lparr>regex := True\<rparr>)
          [''Path'', ''Value'']) = Ret ()"
    "snd (requireArgs exampleWorld
          ((exampleCond ''FileContainsRegex'' ''/srv/log'' '''' ''['')\<lparr>regex := True\<rparr>)
          [''Path'', ''Value'']) = Ret ()"
    "snd (requireArgs exampleWorld (exampleCond ''FileContains'' ''/srv/key'' '''' ''x'')
          [''Path'', ''Value'']) = Ret ()"
    by code_simp+
  have l: "Split (''boot ok'' @ [CHR 0x0A] @ ''ERROR: disk full'' @ [CHR 0x0A]) CHR 0x0A =
           [''boot ok'', ''ERROR: disk full'', '''']"
    by code_simp
  show ?thesis
    using FileContains_result [OF v(1)] FileContains_result [OF v(2)]
      FileContains_result [OF v(3)] l
    by (simp add: exampleWorld_def exampleCond_def zeroCond_def)
qed

section \<open>Directory search\<close>

lemma requireArgs_files:
  assumes "snd (requireArgs w c [''Path'', ''Value'']) = Ret ()"
      and "\<forall>v\<in>set visits. fst v \<noteq> ''''"
  shows "\<forall>g\<in>set (filesOf visits). snd (requireArgs w (c\<lparr>Path := g\<rparr>) [''Path'', ''Value'']) = Ret ()"
proof
  fix g
  assume "g \<in> set (filesOf visits)"
  then obtain v where "v \<in> set visits" and "g = fst v"
    by (auto simp add: filesOf_def)
  then have "g \<noteq> ''''"
    using assms(2) by simp
  then show "snd (requireArgs w (c\<lparr>Path := g\<rparr>) [''Path'', ''Value'']) = Ret ()"
    using assms(1) by (rule snd_requireArgs_Path [rotated])
qed

text \<open>
  Against C4 as stated. A directory of three files, of which exactly one has the value: the search
  does not return true, because the file enumerated first cannot be read.
\<close>

theorem DirContains_permission_counterexample:
  "length (filesOf (walkVisits exampleWorld ''/srv'')) \<le> 10000 \<and>
   filter (fileMatches exampleWorld (exampleCond ''DirContains'' ''/srv'' '''' ''welcome''))
     (filesOf (walkVisits exampleWorld ''/srv'')) = [''/srv/motd''] \<and>
   snd (DirContains exampleWorld (exampleCond ''DirContains'' ''/srv'' '''' ''welcome'')) =
     Ret (False, Some (ErrPermission ''permission denied''))"
  by code_simp

text \<open>
  C4, amended. \<^verbatim>\<open>DirContains\<close> returns the error \<^verbatim>\<open>path does not exist\<close>, with
  false, when the path does not exist; it returns an error whenever the walk
  finds more than 10000 files that are no directories; and it returns true on
  a directory of at most 10000 files of which exactly one has the value,
  provided that none of the files enumerated before that one gives a
  permission error. (A walk finds a file when it visits it with its
  \<^verbatim>\<open>FileInfo\<close>; the last part is about walks that visit every entry so.)
\<close>

theorem DirContains_result:
  assumes "snd (requireArgs w c [''Path'', ''Value'']) = Ret ()"
  shows "(IsNotExist (osStat w (Path c)) \<longrightarrow>
            snd (DirContains w c) = Ret (False, Some (ErrorsNew ''path does not exist''))) \<and>
         (osStat w (Path c) = None \<and>
          walkVisits w (Path c) = vs @ rest \<and>
          (\<forall>v\<in>set vs. snd v \<noteq> None) \<and>
          length (filesOf vs) > 10000 \<longrightarrow>
            snd (DirContains w c) =
              Ret (False, Some (ErrorsNew ''attempted to index too many files in recursive search''))) \<and>
         (osStat w (Path c) = None \<and>
          (\<forall>v\<in>set (walkVisits w (Path c)). snd v \<noteq> None \<and> fst v \<noteq> '''') \<and>
          length (filesOf (walkVisits w (Path c))) \<le> 10000 \<and>
          filesOf (walkVisits w (Path c)) = pre @ f # post \<and>
          fileMatches w c f \<and>
          (\<forall>g\<in>set (pre @ post). \<not> fileMatches w c g) \<and>
          (\<forall>g\<in>set pre. \<not> IsPermission (fileError w c g)) \<longrightarrow>
            snd (DirContains w c) = Ret (True, None))"
proof (intro conjI impI)
  assume "IsNotExist (osStat w (Path c))"
  then show "snd (DirContains w c) = Ret (False, Some (ErrorsNew ''path does not exist''))"
    using assms by (rule DirContains_absent [rotated])
next
  assume "osStat w (Path c) = None \<and>
          walkVisits w (Path c) = vs @ rest \<and>
          (\<forall>v\<in>set vs. snd v \<noteq> None) \<and>
          length (filesOf vs) > 10000"
  then show "snd (DirContains w c) =
      Ret (False, Some (ErrorsNew ''attempted to index too many files in recursive search''))"
    using assms by (intro DirContains_too_many [of w c vs rest]) simp_all
next
  assume h: "osStat w (Path c) = None \<and>
          (\<forall>v\<in>set (walkVisits w (Path c)). snd v \<noteq> None \<and> fst v \<noteq> '''') \<and>
          length (filesOf (walkVisits w (Path c))) \<le> 10000 \<and>
          filesOf (walkVisits w (Path c)) = pre @ f # post \<and>
          fileMatches w c f \<and>
          (\<forall>g\<in>set (pre @ post). \<not> fileMatches w c g) \<and>
          (\<forall>g\<in>set pre. \<not> IsPermission (fileError w c g))"
  have i: "\<forall>v\<in>set (walkVisits w (Path c)). snd v \<noteq> None"
    using h by blast
  have "snd (DirContains w c) = snd (searchFiles w c (filesOf (walkVisits w (Path c))))"
    using assms _ i by (rule DirContains_search) (use h in blast)+
  then have s: "snd (DirContains w c) = snd (searchFiles w c (pre @ f # post))"
    using h by metis
  have "\<forall>g\<in>set (filesOf (walkVisits w (Path c))).
          snd (requireArgs w (c\<lparr>Path := g\<rparr>) [''Path'', ''Value'']) = Ret ()"
    using assms h by (intro requireArgs_files) simp_all
  then have v: "\<forall>g\<in>set (pre @ [f]).
          snd (requireArgs w (c\<lparr>Path := g\<rparr>) [''Path'', ''Value'']) = Ret ()"
    using h by simp
  have p: "\<forall>g\<in>set pre. \<not> fileMatches w c g \<and> \<not> IsPermission (fileError w c g)"
    using h by simp
  show "snd (DirContains w c) = Ret (True, None)"
    using h by (simp add: s searchFiles_first [OF v p] fileMatches_no_error)
qed

lemma big_files:
  "(\<forall>v\<in>set (walkVisits exampleWorld ''/big''). snd v \<noteq> None) \<and>
   length (filesOf (walkVisits exampleWorld ''/big'')) = 10001"
  by (auto simp add: exampleWorld_def filesOf_def o_def)

theorem DirContains_result_witness:
  "snd (DirContains exampleWorld (exampleCond ''DirContains'' ''/nowhere'' '''' ''x'')) =
     Ret (False, Some (ErrorsNew ''path does not exist'')) \<and>
   snd (DirContains exampleWorld (exampleCond ''DirContains'' ''/big'' '''' ''x'')) =
     Ret (False, Some (ErrorsNew ''attempted to index too many files in recursive search'')) \<and>
   snd (DirContains exampleWorld (exampleCond ''DirContains'' ''/etc'' '''' ''localhost'')) =
     Ret (True, None)"
proof -
  let ?a = "exampleCond ''DirContains'' ''/nowhere'' '''' ''x''"
  let ?b = "exampleCond ''DirContains'' ''/big'' '''' ''x''"
  let ?e = "exampleCond ''DirContains'' ''/etc'' '''' ''localhost''"
  have v: "snd (requireArgs exampleWorld ?a [''Path'', ''Value'']) = Ret ()"
    "snd (requireArgs exampleWorld ?b [''Path'', ''Value'']) = Ret ()"
    "snd (requireArgs exampleWorld ?e [''Path'', ''Value'']) = Ret ()"
    by code_simp+
  have a: "IsNotExist (osStat exampleWorld (Path ?a))"
    by code_simp
  have b1: "osStat exampleWorld (Path ?b) = None"
    by code_simp
  have b2: "walkVisits exampleWorld (Path ?b) = walkVisits exampleWorld ''/big'' @ []"
    by (simp add: exampleCond_def)
  have b3: "length (filesOf (walkVisits exampleWorld ''/big'')) > 10000"
    using big_files by simp
  have b: "osStat exampleWorld (Path ?b) = None \<and>
          walkVisits exampleWorld (Path ?b) = walkVisits exampleWorld ''/big'' @ [] \<and>
          (\<forall>v\<in>set (walkVisits exampleWorld ''/big''). snd v \<noteq> None) \<and>
          length (filesOf (walkVisits exampleWorld ''/big'')) > 10000"
    using b1 b2 b3 big_files by blast
  have e: "osStat exampleWorld (Path ?e) = None \<and>
          (\<forall>v\<in>set (walkVisits exampleWorld (Path ?e)). snd v \<noteq> None \<and> fst v \<noteq> '''') \<and>
          length (filesOf (walkVisits exampleWorld (Path ?e))) \<le> 10000 \<and>
          filesOf (walkVisits exampleWorld (Path ?e)) = [] @ ''/etc/hosts'' # [''/etc/shadow''] \<and>
          fileMatches exampleWorld ?e ''/etc/hosts'' \<and>
          (\<forall>g\<in>set ([] @ [''/etc/shadow'']). \<not> fileMatches exampleWorld ?e g) \<and>
          (\<forall>g\<in>set []. \<not> IsPermission (fileError exampleWorld ?e g))"
    by code_simp
  have r1: "snd (DirContains exampleWorld ?a) = Ret (False, Some (ErrorsNew ''path does not exist''))"
    using DirContains_result [OF v(1)] a by blast
  have r2: "snd (DirContains exampleWorld ?b) =
      Ret (False, Some (ErrorsNew ''attempted to index too many files in recursive search''))"
    using DirContains_result [OF v(2), where vs = "walkVisits exampleWorld ''/big''" and rest = "[]"] b
    by blast
  have r3: "snd (DirContains exampleWorld ?e) = Ret (True, None)"
    using DirContains_result [OF v(3), where pre = "[]" and f = "''/etc/hosts''"
        and post = "[''/etc/shadow'']"] e
    by blast
  from r1 r2 r3 show ?thesis by blast
qed

text \<open>
  C10. In the search of \<^verbatim>\<open>DirContains\<close> over the files, a permission error of
  \<^verbatim>\<open>FileContains\<close> ends the search and is returned. Any other error of a file
  is dropped and the search goes on: a later file that has the value still
  gives true, and when every file gives such an error the search returns false
  without an error.
\<close>

theorem DirContains_errors:
  assumes "snd (requireArgs w c [''Path'', ''Value'']) = Ret ()"
      and "osStat w (Path c) = None"
      and "\<forall>v\<in>set (walkVisits w (Path c)). snd v \<noteq> None \<and> fst v \<noteq> ''''"
      and "length (filesOf (walkVisits w (Path c))) \<le> 10000"
  shows "(filesOf (walkVisits w (Path c)) = pre @ f # post \<and>
          (\<forall>g\<in>set pre. \<not> fileMatches w c g \<and> \<not> IsPermission (fileError w c g)) \<and>
          IsPermission (fileError w c f) \<longrightarrow>
            snd (DirContains w c) = Ret (False, fileError w c f)) \<and>
         (filesOf (walkVisits w (Path c)) = pre @ f # post \<and>
          (\<forall>g\<in>set pre. fileError w c g \<noteq> None \<and> \<not> IsPermission (fileError w c g)) \<and>
          fileMatches w c f \<longrightarrow>
            snd (DirContains w c) = Ret (True, None)) \<and>
         ((\<forall>g\<in>set (filesOf (walkVisits w (Path c))).
             fileError w c g \<noteq> None \<and> \<not> IsPermission (fileError w c g)) \<longrightarrow>
            snd (DirContains w c) = Ret (False, None))"
proof -
  have s: "snd (DirContains w c) = snd (searchFiles w c (filesOf (walkVisits w (Path c))))"
    using assms by (intro DirContains_search) simp_all
  have v: "\<forall>g\<in>set (filesOf (walkVisits w (Path c))).
          snd (requireArgs w (c\<lparr>Path := g\<rparr>) [''Path'', ''Value'']) = Ret ()"
    using assms by (intro requireArgs_files) simp_all
  have e: "\<not> fileMatches w c g" if "fileError w c g \<noteq> None" for g
    using that by (auto simp add: fileMatches_def)
  have 1: "snd (DirContains w c) = Ret (False, fileError w c f)"
    if "filesOf (walkVisits w (Path c)) = pre @ f # post"
      and "\<forall>g\<in>set pre. \<not> fileMatches w c g \<and> \<not> IsPermission (fileError w c g)"
      and "IsPermission (fileError w c f)"
  proof -
    have "\<forall>g\<in>set (pre @ [f]). snd (requireArgs w (c\<lparr>Path := g\<rparr>) [''Path'', ''Value'']) = Ret ()"
      using v that(1) by simp
    from searchFiles_first [OF this that(2)] show ?thesis
      using that by (simp add: s)
  qed
  have 2: "snd (DirContains w c) = Ret (True, None)"
    if "filesOf (walkVisits w (Path c)) = pre @ f # post"
      and "\<forall>g\<in>set pre. fileError w c g \<noteq> None \<and> \<not> IsPermission (fileError w c g)"
      and "fileMatches w c f"
  proof -
    have a: "\<forall>g\<in>set (pre @ [f]). snd (requireArgs w (c\<lparr>Path := g\<rparr>) [''Path'', ''Value'']) = Ret ()"
      using v that(1) by simp
    have b: "\<forall>g\<in>set pre. \<not> fileMatches w c g \<and> \<not> IsPermission (fileError w c g)"
      using that(2) e by blast
    from searchFiles_first [OF a b] show ?thesis
      using that by (simp add: s fileMatches_no_error)
  qed
  have 3: "snd (DirContains w c) = Ret (False, None)"
    if "\<forall>g\<in>set (filesOf (walkVisits w (Path c))).
             fileError w c g \<noteq> None \<and> \<not> IsPermission (fileError w c g)"
  proof -
    have "\<forall>g\<in>set (filesOf (walkVisits w (Path c))).
            \<not> fileMatches w c g \<and> \<not> IsPermission (fileError w c g)"
      using that e by blast
    from searchFiles_none [OF v this] show ?thesis
      by (simp add: s)
  qed
  from 1 2 3 show ?thesis by blast
qed

theorem DirContains_errors_witness:
  "snd (DirContains exampleWorld (exampleCond ''DirContains'' ''/srv'' '''' ''welcome'')) =
     Ret (False, Some (ErrPermission ''permission denied'')) \<and>
   snd (DirContains exampleWorld (exampleCond ''DirContains'' ''/opt'' '''' ''milk'')) =
     Ret (True, None) \<and>
   fileError exampleWorld (exampleCond ''DirContains'' ''/var'' '''' ''x'') ''/var/a'' =
     Some (ErrOther ''input/output error'') \<and>
   fileError exampleWorld (exampleCond ''DirContains'' ''/var'' '''' ''x'') ''/var/b'' =
     Some (ErrOther ''input/output error'') \<and>
   snd (DirContains exampleWorld (exampleCond ''DirContains'' ''/var'' '''' ''x'')) =
     Ret (False, None)"
proof -
  let ?s = "exampleCond ''DirContains'' ''/srv'' '''' ''welcome''"
  let ?o = "exampleCond ''DirContains'' ''/opt'' '''' ''milk''"
  let ?v = "exampleCond ''DirContains'' ''/var'' '''' ''x''"
  have s: "snd (requireArgs exampleWorld ?s [''Path'', ''Value'']) = Ret ()"
    "osStat exampleWorld (Path ?s) = None"
    "\<forall>v\<in>set (walkVisits exampleWorld (Path ?s)). snd v \<noteq> None \<and> fst v \<noteq> ''''"
    "length (filesOf (walkVisits exampleWorld (Path ?s))) \<le> 10000"
    by code_simp+
  have s': "filesOf (walkVisits exampleWorld (Path ?s)) = [] @ ''/srv/key'' # [''/srv/log'', ''/srv/motd''] \<and>
          (\<forall>g\<in>set []. \<not> fileMatches exampleWorld ?s g \<and> \<not> IsPermission (fileError exampleWorld ?s g)) \<and>
          IsPermission (fileError exampleWorld ?s ''/srv/key'')"
    "fileError exampleWorld ?s ''/srv/key'' = Some (ErrPermission ''permission denied'')"
    by code_simp+
  have o: "snd (requireArgs exampleWorld ?o [''Path'', ''Value'']) = Ret ()"
    "osStat exampleWorld (Path ?o) = None"
    "\<forall>v\<in>set (walkVisits exampleWorld (Path ?o)). snd v \<noteq> None \<and> fst v \<noteq> ''''"
    "length (filesOf (walkVisits exampleWorld (Path ?o))) \<le> 10000"
    by code_simp+
  have o': "filesOf (walkVisits exampleWorld (Path ?o)) = [''/opt/broken''] @ ''/opt/notes'' # [] \<and>
          (\<forall>g\<in>set [''/opt/broken'']. fileError exampleWorld ?o g \<noteq> None \<and>
              \<not> IsPermission (fileError exampleWorld ?o g)) \<and>
          fileMatches exampleWorld ?o ''/opt/notes''"
    by code_simp
  have v: "snd (requireArgs exampleWorld ?v [''Path'', ''Value'']) = Ret ()"
    "osStat exampleWorld (Path ?v) = None"
    "\<forall>v\<in>set (walkVisits exampleWorld (Path ?v)). snd v \<noteq> None \<and> fst v \<noteq> ''''"
    "length (filesOf (walkVisits exampleWorld (Path ?v))) \<le> 10000"
    by code_simp+
  have v': "\<forall>g\<in>set (filesOf (walkVisits exampleWorld (Path ?v))).
             fileError exampleWorld ?v g \<noteq> None \<and> \<not> IsPermission (fileError exampleWorld ?v g)"
    "fileError exampleWorld ?v ''/var/a'' = Some (ErrOther ''input/output error'')"
    "fileError exampleWorld ?v ''/var/b'' = Some (ErrOther ''input/output error'')"
    by code_simp+
  show ?thesis
    using DirContains_errors [OF s, where pre = "[]" and f = "''/srv/key''"
        and post = "[''/srv/log'', ''/srv/motd'']"] s'
      DirContains_errors [OF o, where pre = "[''/opt/broken'']" and f = "''/opt/notes''"
        and post = "[]"] o'
      DirContains_errors [OF v] v'
    by simp
qed

end
